theory Spec2Isabelle
  imports Complex_Main "HOL-Library.Word"
begin

unbundle bit_operations_syntax

section \<open>JavaScript values used by the ledger\<close>

text \<open>
  Strings are lists of characters, \<open>charCodeAt\<close> is the character's code: the model
  covers the strings whose code units are below 256. Indices, nonces and millisecond
  clock readings are integers. A donation amount is an integer wherever it is printed
  (\<open>String(n)\<close> is then the decimal numeral), and a double-precision Number where
  balances are computed. A reading of \<open>new Date().toISOString()\<close> is a string supplied by
  the environment, a reading of \<open>new Date().getTime()\<close> an integer supplied by the
  environment; every operation takes the readings it makes as arguments, in the order in
  which the source makes them.
\<close>

definition digit_char :: "nat \<Rightarrow> char" where
  "digit_char d = (''0123456789abcdef'' ! d)"

function radix_string :: "nat \<Rightarrow> nat \<Rightarrow> string" where
  "radix_string b n =
     (if n < b \<or> b < 2 then [digit_char n]
      else radix_string b (n div b) @ [digit_char (n mod b)])"
  by pat_completeness auto
termination
  by (relation "measure (\<lambda>(b, n). n)") auto

text \<open>\<open>String(n)\<close> for an integral number: decimal digits, with a minus sign.\<close>

definition Number_toString :: "int \<Rightarrow> string" where
  "Number_toString n =
     (if n < 0 then CHR ''-'' # radix_string 10 (nat (- n)) else radix_string 10 (nat n))"

text \<open>\<open>n.toString(16)\<close> for an integral number.\<close>

definition Number_toString16 :: "int \<Rightarrow> string" where
  "Number_toString16 n =
     (if n < 0 then CHR ''-'' # radix_string 16 (nat (- n)) else radix_string 16 (nat n))"

section \<open>The hash function\<close>

text \<open>
  The body of the \<open>for\<close> loop of \<open>sha256\<close>: \<open>hash = ((hash << 5) - hash) + char\<close>
  followed by \<open>hash = hash & hash\<close>, which keeps the low 32 bits as a signed integer.
\<close>

definition sha256_step :: "32 word \<Rightarrow> char \<Rightarrow> 32 word" where
  "sha256_step hash c = (push_bit 5 hash - hash) + of_nat (of_char c)"

fun sha256_loop :: "string \<Rightarrow> 32 word \<Rightarrow> 32 word" where
  "sha256_loop [] hash = hash"
| "sha256_loop (c # cs) hash = sha256_loop cs (sha256_step hash c)"

definition sha256 :: "string \<Rightarrow> string" where
  "sha256 data =
     (if length data = 0 then Number_toString16 0
      else Number_toString16 \<bar>sint (sha256_loop data 0)\<bar>)"

section \<open>JSON.stringify of the transaction list\<close>

definition dq :: char where
  "dq = CHR 0x22"

definition hex4 :: "nat \<Rightarrow> string" where
  "hex4 n = [digit_char (n div 4096 mod 16), digit_char (n div 256 mod 16),
             digit_char (n div 16 mod 16), digit_char (n mod 16)]"

definition json_escape :: "char \<Rightarrow> string" where
  "json_escape c =
     (if c = dq then [CHR 0x5C, dq]
      else if c = CHR 0x5C then [CHR 0x5C, CHR 0x5C]
      else if c = CHR 0x08 then [CHR 0x5C, CHR ''b'']
      else if c = CHR 0x0C then [CHR 0x5C, CHR ''f'']
      else if c = CHR 0x0A then [CHR 0x5C, CHR ''n'']
      else if c = CHR 0x0D then [CHR 0x5C, CHR ''r'']
      else if c = CHR 0x09 then [CHR 0x5C, CHR ''t'']
      else if (of_char c :: nat) < 32 then [CHR 0x5C, CHR ''u''] @ hex4 (of_char c)
      else [c])"

definition json_string :: "string \<Rightarrow> string" where
  "json_string s = dq # concat (map json_escape s) @ [dq]"

definition json_member :: "string \<Rightarrow> string \<Rightarrow> string" where
  "json_member key v = json_string key @ '':'' @ v"

fun join_commas :: "string list \<Rightarrow> string" where
  "join_commas [] = []"
| "join_commas [x] = x"
| "join_commas (x # y # ys) = x @ '','' @ join_commas (y # ys)"

section \<open>Transactions, blocks and the ledger\<close>

text \<open>
  A transaction object. Its \<open>amount\<close> property is of type \<open>'n\<close>: an integer where
  the amount is printed (ids, hashes and the route, on integral amounts), and a
  double-precision Number where amounts are added (the balances).
\<close>

record 'n transaction_of =
  fromAddress :: string
  toAddress :: string
  amount :: 'n
  message :: string
  timestamp_tx :: string
  transactionId :: string

type_synonym transaction = "int transaction_of"

text \<open>
  A block object. Its \<open>transactions\<close> property is of type \<open>'t\<close>: the list of
  transactions itself where blocks are taken as values, and a reference to the array where
  the arrays are cells of a store (section \<open>Arrays as shared objects\<close>).
\<close>

record 't block_of =
  index :: int
  timestamp :: string
  transactions :: 't
  previousHash :: string
  hash :: string
  nonce :: int

type_synonym block = "transaction list block_of"

record 'n ledger_of =
  chain :: "'n transaction_of list block_of list"
  pendingTransactions :: "'n transaction_of list"

type_synonym ledger = "int ledger_of"

definition json_transaction :: "transaction \<Rightarrow> string" where
  "json_transaction t =
     ''{'' @ join_commas
       [json_member ''fromAddress'' (json_string (fromAddress t)),
        json_member ''toAddress'' (json_string (toAddress t)),
        json_member ''amount'' (Number_toString (amount t)),
        json_member ''message'' (json_string (message t)),
        json_member ''timestamp'' (json_string (timestamp_tx t)),
        json_member ''transactionId'' (json_string (transactionId t))] @ ''}''"

definition JSON_stringify :: "transaction list \<Rightarrow> string" where
  "JSON_stringify ts = ''['' @ join_commas (map json_transaction ts) @ '']''"

datatype error = TypeError | CastError | ValidationError | DuplicateKeyError

subsection \<open>Hashing a block\<close>

definition calculateHash :: "int \<Rightarrow> string \<Rightarrow> transaction list \<Rightarrow> string \<Rightarrow> int \<Rightarrow> string" where
  "calculateHash idx prevHash txs ts nonce' =
     sha256 (Number_toString idx @ prevHash @ JSON_stringify txs @ ts @ Number_toString nonce')"

subsection \<open>Construction\<close>

text \<open>
  \<open>createGenesisBlock\<close> reads the clock twice: \<open>t1\<close> becomes the block's timestamp,
  \<open>t2\<close> is the timestamp that goes into its hash.
\<close>

definition createGenesisBlock :: "string \<Rightarrow> string \<Rightarrow> ledger \<Rightarrow> block \<times> ledger" where
  "createGenesisBlock t1 t2 s =
     (let genesisBlock = \<lparr>index = 0, timestamp = t1, transactions = [], previousHash = ''0'',
                           hash = calculateHash 0 ''0'' [] t2 0, nonce = 0\<rparr>
      in (genesisBlock, s\<lparr>chain := chain s @ [genesisBlock]\<rparr>))"

definition initializeBlockchain :: "string \<Rightarrow> string \<Rightarrow> ledger \<Rightarrow> ledger" where
  "initializeBlockchain t1 t2 s =
     (if length (chain s) = 0 then snd (createGenesisBlock t1 t2 s) else s)"

definition constructor :: "string \<Rightarrow> string \<Rightarrow> ledger" where
  "constructor t1 t2 = initializeBlockchain t1 t2 \<lparr>chain = [], pendingTransactions = []\<rparr>"

subsection \<open>Operations\<close>

text \<open>\<open>chain[chain.length - 1]\<close>: \<open>undefined\<close> on an empty array.\<close>

definition getLatestBlock :: "ledger \<Rightarrow> block option" where
  "getLatestBlock s = (if chain s = [] then None else Some (chain s ! (length (chain s) - 1)))"

definition generateTransactionId :: "string \<Rightarrow> string \<Rightarrow> int \<Rightarrow> int \<Rightarrow> string" where
  "generateTransactionId from to amt ms =
     sha256 (from @ to @ Number_toString amt @ Number_toString ms)"

text \<open>
  \<open>addDonationTransaction\<close> reads the clock for the timestamp (\<open>now\<close>) and then, inside
  \<open>generateTransactionId\<close>, for the millisecond value (\<open>ms\<close>).
\<close>

definition addDonationTransaction ::
  "string \<Rightarrow> string \<Rightarrow> int \<Rightarrow> string \<Rightarrow> string \<Rightarrow> int \<Rightarrow> ledger \<Rightarrow> transaction \<times> ledger" where
  "addDonationTransaction donorId charityId amt msg now ms s =
     (let tx = \<lparr>fromAddress = donorId, toAddress = charityId, amount = amt, message = msg,
                 timestamp_tx = now,
                 transactionId = generateTransactionId donorId charityId amt ms\<rparr>
      in (tx, s\<lparr>pendingTransactions := pendingTransactions s @ [tx]\<rparr>))"

text \<open>
  \<open>createNewBlock\<close> reads \<open>previousBlock.index\<close>; on an empty chain the latest block
  is \<open>undefined\<close> and the read throws a TypeError.
\<close>

definition createNewBlock :: "transaction list \<Rightarrow> string \<Rightarrow> ledger \<Rightarrow> error + block" where
  "createNewBlock txs now s =
     (case getLatestBlock s of
        None \<Rightarrow> Inl TypeError
      | Some previousBlock \<Rightarrow>
          (let newIndex = index previousBlock + 1;
               prevHash = hash previousBlock
           in Inr \<lparr>index = newIndex, timestamp = now, transactions = txs,
                   previousHash = prevHash,
                   hash = calculateHash newIndex prevHash txs now 0, nonce = 0\<rparr>))"

definition minePendingTransactions :: "string \<Rightarrow> ledger \<Rightarrow> error + (block \<times> ledger)" where
  "minePendingTransactions now s =
     (case createNewBlock (pendingTransactions s) now s of
        Inl e \<Rightarrow> Inl e
      | Inr b \<Rightarrow> Inr (b, s\<lparr>chain := chain s @ [b], pendingTransactions := []\<rparr>))"

subsection \<open>Verification\<close>

function isChainValid_loop :: "block list \<Rightarrow> nat \<Rightarrow> bool" where
  "isChainValid_loop c i =
     (if i < length c then
        (let currentBlock = c ! i; previousBlock = c ! (i - 1) in
         if hash currentBlock \<noteq>
              calculateHash (index currentBlock) (previousHash currentBlock)
                (transactions currentBlock) (timestamp currentBlock) (nonce currentBlock)
         then False
         else if previousHash currentBlock \<noteq> hash previousBlock then False
         else isChainValid_loop c (i + 1))
      else True)"
  by pat_completeness auto
termination
  by (relation "measure (\<lambda>(c, i). length c - i)") auto

definition isChainValid :: "ledger \<Rightarrow> bool" where
  "isChainValid s = isChainValid_loop (chain s) 1"

subsection \<open>Sequences of ledger operations\<close>

text \<open>
  A call of \<open>addDonationTransaction\<close> with its arguments and its two clock readings, or
  a call of \<open>minePendingTransactions\<close> with its clock reading. \<open>run\<close> performs the calls
  in order and stops at the first exception.
\<close>

datatype operation =
    AddTransaction string string int string string int
  | Mine string

fun apply_operation :: "operation \<Rightarrow> ledger \<Rightarrow> error + ledger" where
  "apply_operation (AddTransaction donorId charityId amt msg now ms) s =
     Inr (snd (addDonationTransaction donorId charityId amt msg now ms s))"
| "apply_operation (Mine now) s =
     (case minePendingTransactions now s of Inl e \<Rightarrow> Inl e | Inr (b, s') \<Rightarrow> Inr s')"

fun run :: "operation list \<Rightarrow> ledger \<Rightarrow> error + ledger" where
  "run [] s = Inr s"
| "run (x # xs) s = (case apply_operation x s of Inl e \<Rightarrow> Inl e | Inr s' \<Rightarrow> run xs s')"

text \<open>The two checks \<open>isChainValid\<close> makes on the block at position \<open>j\<close>.\<close>

definition block_ok :: "block list \<Rightarrow> nat \<Rightarrow> bool" where
  "block_ok c j \<longleftrightarrow>
     hash (c ! j) = calculateHash (index (c ! j)) (previousHash (c ! j))
                      (transactions (c ! j)) (timestamp (c ! j)) (nonce (c ! j)) \<and>
     previousHash (c ! j) = hash (c ! (j - 1))"

definition well_formed :: "ledger \<Rightarrow> bool" where
  "well_formed s \<longleftrightarrow> chain s \<noteq> [] \<and> isChainValid s"

subsection \<open>Balances\<close>

text \<open>
  \<open>getBalanceOfAddress\<close> adds amounts as JavaScript Numbers, that is IEEE 754
  double-precision values. A finite Number is the rational it denotes (the sign of zero
  is not kept); the other Numbers are the two infinities and NaN.
\<close>

datatype number = Finite rat | PosInfinity | NegInfinity | NaN

text \<open>
  Rounding to the nearest double, ties to the even significand. A positive rational is
  scaled by powers of two until it lies in \<open>[2^52, 2^53)\<close>, or the least exponent
  \<open>-1074\<close> of the subnormal range is reached; the scaled value is rounded to an integer
  and scaled back. A result of \<open>2^1024\<close> or more is Infinity.
\<close>

definition round_half_even :: "rat \<Rightarrow> int" where
  "round_half_even q =
     (let f = \<lfloor>q\<rfloor>; d = q - of_int f
      in if d < 1 / 2 then f else if 1 / 2 < d then f + 1 else if even f then f else f + 1)"

function normalise :: "rat \<Rightarrow> int \<Rightarrow> rat \<times> int" where
  "normalise x e =
     (if 2 ^ 53 \<le> x then normalise (x / 2) (e + 1)
      else if x < 2 ^ 52 \<and> - 1074 < e then normalise (x * 2) (e - 1)
      else (x, e))"
  by pat_completeness auto
termination
proof (relation "measures [\<lambda>(x, e). nat \<lfloor>x / 2 ^ 53\<rfloor>, \<lambda>(x, e). nat (e + 1074)]")
  show "wf (measures [\<lambda>(x::rat, e::int). nat \<lfloor>x / 2 ^ 53\<rfloor>, \<lambda>(x, e). nat (e + 1074)])"
    by simp
next
  fix x :: rat and e :: int
  assume a: "2 ^ 53 \<le> x"
  let ?k = "\<lfloor>x / 2 ^ 53\<rfloor>"
  from a have "1 \<le> x / 2 ^ 53" by simp
  then have k: "1 \<le> ?k" by simp
  then have "(1::rat) \<le> of_int ?k" by linarith
  moreover have "x / 2 ^ 53 < of_int ?k + 1" by linarith
  ultimately have "x / 2 ^ 53 < 2 * of_int ?k" by linarith
  then have "x / 2 / 2 ^ 53 < of_int ?k" by simp
  then have "\<lfloor>x / 2 / 2 ^ 53\<rfloor> < ?k" by (simp only: floor_less_iff)
  then show "((x / 2, e + 1), (x, e)) \<in>
      measures [\<lambda>(x, e). nat \<lfloor>x / 2 ^ 53\<rfloor>, \<lambda>(x, e). nat (e + 1074)]"
    using k by simp
next
  fix x :: rat and e :: int
  assume a: "\<not> 2 ^ 53 \<le> x" "x < 2 ^ 52 \<and> - 1074 < e"
  have z: "\<lfloor>x * 2 / 2 ^ 53\<rfloor> \<le> 0"
  proof -
    from a have "x * 2 / 2 ^ 53 < 1" by simp
    then show ?thesis by (simp add: floor_le_iff)
  qed
  have "nat \<lfloor>x * 2 / 2 ^ 53\<rfloor> = 0" using z by simp
  moreover have "nat \<lfloor>x / 2 ^ 53\<rfloor> \<ge> 0" by simp
  ultimately show "((x * 2, e - 1), (x, e)) \<in>
      measures [\<lambda>(x, e). nat \<lfloor>x / 2 ^ 53\<rfloor>, \<lambda>(x, e). nat (e + 1074)]"
    using a by auto
qed

definition round_positive :: "rat \<Rightarrow> number" where
  "round_positive x =
     (let (m, e) = normalise x 0;
          r = (if 0 \<le> e then of_int (round_half_even m) * 2 ^ nat e
               else of_int (round_half_even m) / 2 ^ nat (- e))
      in if 2 ^ 1024 \<le> r then PosInfinity else Finite r)"

fun negate :: "number \<Rightarrow> number" where
  "negate (Finite r) = Finite (- r)"
| "negate PosInfinity = NegInfinity"
| "negate NegInfinity = PosInfinity"
| "negate NaN = NaN"

definition round_double :: "rat \<Rightarrow> number" where
  "round_double x =
     (if x = 0 then Finite 0
      else if 0 < x then round_positive x
      else negate (round_positive (- x)))"

text \<open>
  \<open>x + y\<close> and \<open>x - y\<close> on Numbers: the exact sum of finite values, rounded.
\<close>

fun add :: "number \<Rightarrow> number \<Rightarrow> number" where
  "add (Finite a) (Finite b) = round_double (a + b)"
| "add NaN y = NaN"
| "add x NaN = NaN"
| "add PosInfinity NegInfinity = NaN"
| "add NegInfinity PosInfinity = NaN"
| "add PosInfinity y = PosInfinity"
| "add NegInfinity y = NegInfinity"
| "add x PosInfinity = PosInfinity"
| "add x NegInfinity = NegInfinity"

definition subtract :: "number \<Rightarrow> number \<Rightarrow> number" where
  "subtract x y = add x (negate y)"

text \<open>
  \<open>parseFloat(x)\<close> converts the Number \<open>x\<close> to a string and reads the longest prefix
  that is a decimal literal. For an integral \<open>x\<close> of magnitude up to \<open>2^53\<close> the string is
  an optional minus sign and the decimal digits, and the digits are read back and
  rounded here. For every other Number, \<open>String(x)\<close> is by its specification a literal
  that reads back as \<open>x\<close> (\<open>Infinity\<close> reads as Infinity, \<open>NaN\<close> has no numeric prefix
  and reads as NaN).
\<close>

definition digit_value :: "char \<Rightarrow> nat option" where
  "digit_value c =
     (if (48::nat) \<le> of_char c \<and> (of_char c :: nat) \<le> 57 then Some (of_char c - 48) else None)"

fun parse_digits :: "string \<Rightarrow> nat \<Rightarrow> nat" where
  "parse_digits [] acc = acc"
| "parse_digits (c # cs) acc =
     (case digit_value c of None \<Rightarrow> acc | Some d \<Rightarrow> parse_digits cs (10 * acc + d))"

definition parse_integer :: "string \<Rightarrow> int" where
  "parse_integer str =
     (case str of
        [] \<Rightarrow> 0
      | c # cs \<Rightarrow> if c = CHR ''-'' then - int (parse_digits cs 0)
                  else int (parse_digits (c # cs) 0))"

definition parseFloat :: "number \<Rightarrow> number" where
  "parseFloat x =
     (case x of
        Finite r \<Rightarrow>
          if r = of_int \<lfloor>r\<rfloor> \<and> \<bar>r\<bar> \<le> 2 ^ 53
          then round_double (of_int (parse_integer (Number_toString \<lfloor>r\<rfloor>)))
          else Finite r
      | _ \<Rightarrow> x)"

fun balance_of_transactions ::
  "string \<Rightarrow> number transaction_of list \<Rightarrow> number \<Rightarrow> number" where
  "balance_of_transactions address [] balance = balance"
| "balance_of_transactions address (t # ts) balance =
     (let balance1 = (if fromAddress t = address then subtract balance (parseFloat (amount t))
                      else balance);
          balance2 = (if toAddress t = address then add balance1 (parseFloat (amount t))
                      else balance1)
      in balance_of_transactions address ts balance2)"

fun balance_of_blocks ::
  "string \<Rightarrow> number transaction_of list block_of list \<Rightarrow> number \<Rightarrow> number" where
  "balance_of_blocks address [] balance = balance"
| "balance_of_blocks address (b # bs) balance =
     balance_of_blocks address bs (balance_of_transactions address (transactions b) balance)"

definition getBalanceOfAddress :: "string \<Rightarrow> number ledger_of \<Rightarrow> number" where
  "getBalanceOfAddress address s = balance_of_blocks address (chain s) (Finite 0)"









section \<open>Arrays as shared objects\<close>

text \<open>
  The ledger object holds references to two arrays, and a block holds a reference to its
  array of transactions. The store maps a reference to the array it denotes; block and
  transaction objects are the elements of the arrays. \<open>alloc\<close> is the evaluation of an
  array literal: it takes the next unused reference.
\<close>

type_synonym ref = nat

datatype cell = Blocks "ref block_of list" | Transactions "transaction list"

record heap =
  cells :: "ref \<Rightarrow> cell option"
  next_ref :: ref

record ledger_object =
  chain_ref :: ref
  pendingTransactions_ref :: ref

definition empty_heap :: heap where
  "empty_heap = \<lparr>cells = (\<lambda>r. None), next_ref = 0\<rparr>"

definition alloc :: "cell \<Rightarrow> heap \<Rightarrow> ref \<times> heap" where
  "alloc c h = (next_ref h, h\<lparr>cells := (cells h)(next_ref h := Some c), next_ref := next_ref h + 1\<rparr>)"

text \<open>
  Reading an array through a reference, and \<open>Array.prototype.push\<close>. A reference that
  does not denote an array of the expected kind stands for \<open>undefined\<close>, on which the
  property access throws a TypeError.
\<close>

definition read_blocks :: "heap \<Rightarrow> ref \<Rightarrow> ref block_of list option" where
  "read_blocks h r = (case cells h r of Some (Blocks bs) \<Rightarrow> Some bs | _ \<Rightarrow> None)"

definition read_transactions :: "heap \<Rightarrow> ref \<Rightarrow> transaction list option" where
  "read_transactions h r = (case cells h r of Some (Transactions ts) \<Rightarrow> Some ts | _ \<Rightarrow> None)"

definition push_block :: "ref \<Rightarrow> ref block_of \<Rightarrow> heap \<Rightarrow> error + heap" where
  "push_block r b h =
     (case read_blocks h r of
        None \<Rightarrow> Inl TypeError
      | Some bs \<Rightarrow> Inr (h\<lparr>cells := (cells h)(r := Some (Blocks (bs @ [b])))\<rparr>))"

definition push_transaction :: "ref \<Rightarrow> transaction \<Rightarrow> heap \<Rightarrow> error + heap" where
  "push_transaction r t h =
     (case read_transactions h r of
        None \<Rightarrow> Inl TypeError
      | Some ts \<Rightarrow> Inr (h\<lparr>cells := (cells h)(r := Some (Transactions (ts @ [t])))\<rparr>))"

text \<open>
  The methods of \<open>BlockchainService\<close> on the store. \<open>createGenesisBlock\<close> passes a second
  empty array literal to \<open>calculateHash\<close>, which nothing else ever refers to; its
  contents are written out here. \<open>initializeBlockchain\<close> catches and logs an exception.
\<close>

definition createGenesisBlock_h ::
  "string \<Rightarrow> string \<Rightarrow> ledger_object \<Rightarrow> heap \<Rightarrow> error + (ref block_of \<times> heap)" where
  "createGenesisBlock_h t1 t2 this h =
     (let (txs, h1) = alloc (Transactions []) h;
          genesisBlock = \<lparr>index = 0, timestamp = t1, transactions = txs, previousHash = ''0'',
                           hash = calculateHash 0 ''0'' [] t2 0, nonce = 0\<rparr>
      in case push_block (chain_ref this) genesisBlock h1 of
           Inl e \<Rightarrow> Inl e
         | Inr h2 \<Rightarrow> Inr (genesisBlock, h2))"

definition initializeBlockchain_h :: "string \<Rightarrow> string \<Rightarrow> ledger_object \<Rightarrow> heap \<Rightarrow> heap" where
  "initializeBlockchain_h t1 t2 this h =
     (case read_blocks h (chain_ref this) of
        None \<Rightarrow> h
      | Some bs \<Rightarrow>
          if length bs = 0 then
            (case createGenesisBlock_h t1 t2 this h of Inl e \<Rightarrow> h | Inr (g, h') \<Rightarrow> h')
          else h)"

definition constructor_h :: "string \<Rightarrow> string \<Rightarrow> heap \<Rightarrow> ledger_object \<times> heap" where
  "constructor_h t1 t2 h =
     (let (c, h1) = alloc (Blocks []) h;
          (p, h2) = alloc (Transactions []) h1;
          this = \<lparr>chain_ref = c, pendingTransactions_ref = p\<rparr>
      in (this, initializeBlockchain_h t1 t2 this h2))"

definition getLatestBlock_h :: "ledger_object \<Rightarrow> heap \<Rightarrow> ref block_of option" where
  "getLatestBlock_h this h =
     (case read_blocks h (chain_ref this) of
        None \<Rightarrow> None
      | Some bs \<Rightarrow> if bs = [] then None else Some (bs ! (length bs - 1)))"

definition addDonationTransaction_h ::
  "string \<Rightarrow> string \<Rightarrow> int \<Rightarrow> string \<Rightarrow> string \<Rightarrow> int \<Rightarrow> ledger_object \<Rightarrow> heap
     \<Rightarrow> error + (transaction \<times> heap)" where
  "addDonationTransaction_h donorId charityId amt msg now ms this h =
     (let tx = \<lparr>fromAddress = donorId, toAddress = charityId, amount = amt, message = msg,
                 timestamp_tx = now,
                 transactionId = generateTransactionId donorId charityId amt ms\<rparr>
      in case push_transaction (pendingTransactions_ref this) tx h of
           Inl e \<Rightarrow> Inl e
         | Inr h' \<Rightarrow> Inr (tx, h'))"

text \<open>
  \<open>createNewBlock\<close> stores its argument, the pending array itself, in the block; then
  \<open>minePendingTransactions\<close> binds \<open>this.pendingTransactions\<close> to a new empty array.
\<close>

definition createNewBlock_h ::
  "ref \<Rightarrow> string \<Rightarrow> ledger_object \<Rightarrow> heap \<Rightarrow> error + ref block_of" where
  "createNewBlock_h txs now this h =
     (case getLatestBlock_h this h of
        None \<Rightarrow> Inl TypeError
      | Some previousBlock \<Rightarrow>
          (case read_transactions h txs of
             None \<Rightarrow> Inl TypeError
           | Some ts \<Rightarrow>
               (let newIndex = index previousBlock + 1;
                    prevHash = hash previousBlock
                in Inr \<lparr>index = newIndex, timestamp = now, transactions = txs,
                        previousHash = prevHash,
                        hash = calculateHash newIndex prevHash ts now 0, nonce = 0\<rparr>)))"

definition minePendingTransactions_h ::
  "string \<Rightarrow> ledger_object \<Rightarrow> heap \<Rightarrow> error + (ref block_of \<times> ledger_object \<times> heap)" where
  "minePendingTransactions_h now this h =
     (case createNewBlock_h (pendingTransactions_ref this) now this h of
        Inl e \<Rightarrow> Inl e
      | Inr b \<Rightarrow>
          (case push_block (chain_ref this) b h of
             Inl e \<Rightarrow> Inl e
           | Inr h1 \<Rightarrow>
               (let (p, h2) = alloc (Transactions []) h1
                in Inr (b, this\<lparr>pendingTransactions_ref := p\<rparr>, h2))))"

text \<open>
  \<open>getBlockchain\<close> returns an object whose two properties are the ledger's own
  references.
\<close>

record blockchain_view =
  view_chain :: ref
  view_pendingTransactions :: ref

definition getBlockchain_h :: "ledger_object \<Rightarrow> blockchain_view" where
  "getBlockchain_h this =
     \<lparr>view_chain = chain_ref this, view_pendingTransactions = pendingTransactions_ref this\<rparr>"

text \<open>
  A caller's \<open>view.pendingTransactions.push(tx)\<close> on the object that \<open>getBlockchain\<close>
  returned; an exception leaves the store as it is.
\<close>

definition caller_pushes :: "blockchain_view \<Rightarrow> transaction \<Rightarrow> heap \<Rightarrow> heap" where
  "caller_pushes view tx h =
     (case push_transaction (view_pendingTransactions view) tx h of
        Inl e \<Rightarrow> h
      | Inr h' \<Rightarrow> h')"

fun apply_operation_h ::
  "operation \<Rightarrow> ledger_object \<times> heap \<Rightarrow> error + (ledger_object \<times> heap)" where
  "apply_operation_h (AddTransaction donorId charityId amt msg now ms) (this, h) =
     (case addDonationTransaction_h donorId charityId amt msg now ms this h of
        Inl e \<Rightarrow> Inl e
      | Inr (tx, h') \<Rightarrow> Inr (this, h'))"
| "apply_operation_h (Mine now) (this, h) =
     (case minePendingTransactions_h now this h of
        Inl e \<Rightarrow> Inl e
      | Inr (b, this', h') \<Rightarrow> Inr (this', h'))"

fun run_h :: "operation list \<Rightarrow> ledger_object \<times> heap \<Rightarrow> error + (ledger_object \<times> heap)" where
  "run_h [] st = Inr st"
| "run_h (x # xs) st = (case apply_operation_h x st of Inl e \<Rightarrow> Inl e | Inr st' \<Rightarrow> run_h xs st')"

text \<open>
  The ledger as a value, read from the store through the ledger object's references.
\<close>

definition read_block :: "heap \<Rightarrow> ref block_of \<Rightarrow> block option" where
  "read_block h b =
     (case read_transactions h (transactions b) of
        None \<Rightarrow> None
      | Some ts \<Rightarrow> Some \<lparr>index = index b, timestamp = timestamp b, transactions = ts,
                         previousHash = previousHash b, hash = hash b, nonce = nonce b\<rparr>)"

fun read_all :: "heap \<Rightarrow> ref block_of list \<Rightarrow> block list option" where
  "read_all h [] = Some []"
| "read_all h (b # bs) =
     (case read_block h b of
        None \<Rightarrow> None
      | Some b' \<Rightarrow> (case read_all h bs of None \<Rightarrow> None | Some bs' \<Rightarrow> Some (b' # bs')))"

definition read_ledger :: "heap \<Rightarrow> ledger_object \<Rightarrow> ledger option" where
  "read_ledger h this =
     (case read_blocks h (chain_ref this) of
        None \<Rightarrow> None
      | Some bs \<Rightarrow>
          (case read_all h bs of
             None \<Rightarrow> None
           | Some c \<Rightarrow>
               (case read_transactions h (pendingTransactions_ref this) of
                  None \<Rightarrow> None
                | Some p \<Rightarrow> Some \<lparr>chain = c, pendingTransactions = p\<rparr>)))"

text \<open>
  The shape of the store that the ledger's own methods keep: the two references of the
  ledger object denote a block array and a transaction array, every block refers to a
  transaction array of its own, other than the pending one, and all these references
  are below the next unused one.
\<close>

definition heap_ok :: "heap \<Rightarrow> ledger_object \<Rightarrow> bool" where
  "heap_ok h this \<longleftrightarrow>
     chain_ref this < next_ref h \<and> pendingTransactions_ref this < next_ref h \<and>
     (\<exists>bs. cells h (chain_ref this) = Some (Blocks bs) \<and>
        (\<forall>b \<in> set bs. transactions b < next_ref h \<and>
                        transactions b \<noteq> pendingTransactions_ref this \<and>
                        (\<exists>ts. cells h (transactions b) = Some (Transactions ts)))) \<and>
     (\<exists>p. cells h (pendingTransactions_ref this) = Some (Transactions p))"

section \<open>The donation route\<close>

text \<open>
  A user document, with the properties the route reads.
\<close>

record user =
  user_id :: string
  role :: string
  displayName :: string

text \<open>
  A Donation document: the paths of \<open>DonationSchema\<close> that the route sets or that have a
  default, and the document's id. The route leaves \<open>allocation\<close> at its default, an empty
  map.
\<close>

record donation =
  donation_id :: string
  donor :: string
  charity :: string
  amount_d :: int
  message_d :: string
  transactionId_d :: string
  blockchainTxHash :: "string option"
  status :: string
  createdAt :: int

text \<open>
  The route reads \<open>blockchainTx.hash\<close>. The object that \<open>addDonationTransaction\<close> returns
  has the properties \<open>fromAddress\<close>, \<open>toAddress\<close>, \<open>amount\<close>, \<open>message\<close>, \<open>timestamp\<close> and
  \<open>transactionId\<close> and no other, so the read yields \<open>undefined\<close>.
\<close>

definition transaction_hash :: "transaction \<Rightarrow> string option" where
  "transaction_hash tx = None"

text \<open>The setter of \<open>trim: true\<close>: \<open>String.prototype.trim\<close>.\<close>

definition is_space :: "char \<Rightarrow> bool" where
  "is_space c \<longleftrightarrow> (of_char c :: nat) \<in> {9, 10, 11, 12, 13, 32, 160}"

definition trim :: "string \<Rightarrow> string" where
  "trim s = rev (dropWhile is_space (rev (dropWhile is_space s)))"

text \<open>
  The validators of \<open>DonationSchema\<close>: \<open>required: true\<close> rejects \<open>undefined\<close> and, for a
  string, the empty string; \<open>min: 0.01\<close> on an integral amount is \<open>1 \<le> amount\<close>.
  \<open>save\<close> validates the document, then inserts it under the unique index on
  \<open>transactionId\<close>.
\<close>

definition validate :: "donation \<Rightarrow> bool" where
  "validate d \<longleftrightarrow>
     donor d \<noteq> [] \<and> charity d \<noteq> [] \<and> 1 \<le> amount_d d \<and> transactionId_d d \<noteq> [] \<and>
     (case blockchainTxHash d of None \<Rightarrow> False | Some h \<Rightarrow> h \<noteq> [])"

definition save :: "donation \<Rightarrow> donation list \<Rightarrow> error + donation list" where
  "save d ds =
     (if \<not> validate d then Inl ValidationError
      else if transactionId_d d \<in> set (map transactionId_d ds) then Inl DuplicateKeyError
      else Inr (ds @ [d]))"

text \<open>
  A request that passed the \<open>auth\<close> middleware: \<open>req.user.id\<close> and the body. The route
  reads the clock and the id generator through \<open>addDonationTransaction\<close>, the Donation
  constructor and \<open>minePendingTransactions\<close>, in this order.
\<close>

record request =
  req_user_id :: string
  req_charityId :: string
  req_amount :: int
  req_message :: "string option"

record readings =
  tx_now :: string
  tx_ms :: int
  new_id :: string
  created_ms :: int
  block_now :: string

text \<open>
  The state the route works on: the user collection behind \<open>User.findById\<close> (which
  answers a document, \<open>null\<close>, or throws), the donation collection and the ledger.
\<close>

record app =
  findById :: "string \<Rightarrow> error + user option"
  donations :: "donation list"
  blockchainService :: ledger

text \<open>
  The responses: a status with a message, or status 201 with the donation and the
  block's index and hash.
\<close>

record donation_json =
  json_id :: string
  json_amount :: int
  json_message :: "string option"
  json_charity_id :: string
  json_charity_displayName :: string
  json_transactionId :: string
  json_blockchainTxHash :: "string option"
  json_createdAt :: int

datatype response =
    Message nat string
  | Created donation_json int string

text \<open>
  \<open>router.post('/')\<close>. Every exception inside the handler is caught and answered with
  status 500; what the handler did to the ledger before the exception stays.
\<close>

definition post_donation :: "request \<Rightarrow> readings \<Rightarrow> app \<Rightarrow> response \<times> app" where
  "post_donation req rd st =
     (case findById st (req_user_id req) of
        Inl e \<Rightarrow> (Message 500 ''Server error'', st)
      | Inr None \<Rightarrow> (Message 403 ''Only donors can make donations'', st)
      | Inr (Some donor') \<Rightarrow>
          if role donor' \<noteq> ''donor'' then (Message 403 ''Only donors can make donations'', st)
          else
            (case findById st (req_charityId req) of
               Inl e \<Rightarrow> (Message 500 ''Server error'', st)
             | Inr None \<Rightarrow> (Message 404 ''Charity not found'', st)
             | Inr (Some charity') \<Rightarrow>
                 if role charity' \<noteq> ''charity'' then (Message 404 ''Charity not found'', st)
                 else
                   (let (blockchainTx, ledger1) =
                          addDonationTransaction (user_id donor') (user_id charity')
                            (req_amount req)
                            (case req_message req of None \<Rightarrow> [] | Some m \<Rightarrow> m)
                            (tx_now rd) (tx_ms rd) (blockchainService st);
                        st1 = st\<lparr>blockchainService := ledger1\<rparr>;
                        d = \<lparr>donation_id = new_id rd, donor = user_id donor',
                             charity = user_id charity', amount_d = req_amount req,
                             message_d = (case req_message req of None \<Rightarrow> []
                                          | Some m \<Rightarrow> trim m),
                             transactionId_d = transactionId blockchainTx,
                             blockchainTxHash = transaction_hash blockchainTx,
                             status = ''completed'', createdAt = created_ms rd\<rparr>
                    in case save d (donations st1) of
                         Inl e \<Rightarrow> (Message 500 ''Server error'', st1)
                       | Inr ds \<Rightarrow>
                           (let st2 = st1\<lparr>donations := ds\<rparr> in
                            case minePendingTransactions (block_now rd) (blockchainService st2) of
                              Inl e \<Rightarrow> (Message 500 ''Server error'', st2)
                            | Inr (b, ledger2) \<Rightarrow>
                                (Created
                                   \<lparr>json_id = donation_id d, json_amount = req_amount req,
                                    json_message = req_message req,
                                    json_charity_id = user_id charity',
                                    json_charity_displayName = displayName charity',
                                    json_transactionId = transactionId_d d,
                                    json_blockchainTxHash = blockchainTxHash d,
                                    json_createdAt = createdAt d\<rparr>
                                   (index b) (hash b),
                                 st2\<lparr>blockchainService := ledger2\<rparr>)))))"

section \<open>Scenarios for the properties\<close>

subsection \<open>Corruption of a mined block\<close>

text \<open>
  The assignment \<open>chain[i].transactions[j].amount = a\<close> made behind the ledger's back:
  the amount of transaction \<open>j\<close> of block \<open>i\<close> changes and every other field, the block's
  stored hash included, stays.
\<close>

definition tamper_amount :: "nat \<Rightarrow> nat \<Rightarrow> int \<Rightarrow> ledger \<Rightarrow> ledger" where
  "tamper_amount i j a s =
     s\<lparr>chain := (chain s)
        [i := (chain s ! i)\<lparr>transactions := (transactions (chain s ! i))
               [j := (transactions (chain s ! i) ! j)\<lparr>amount := a\<rparr>]\<rparr>]\<rparr>"

subsection \<open>A concrete run\<close>

text \<open>
  A ledger constructed on 1 May 2024, one donation of 50 from \<open>donorA\<close> to \<open>charityB\<close>
  one second later, and the mine that follows it. The hashes are the values the hash
  function returns on these inputs.
\<close>

definition example_ledger :: ledger where
  "example_ledger = constructor ''2024-05-01T10:00:00.000Z'' ''2024-05-01T10:00:00.000Z''"

definition example_operations :: "operation list" where
  "example_operations =
     [AddTransaction ''donorA'' ''charityB'' 50 '''' ''2024-05-01T10:00:01.000Z'' 1714557601000,
      Mine ''2024-05-01T10:00:01.002Z'']"

definition example_transaction :: transaction where
  "example_transaction =
     \<lparr>fromAddress = ''donorA'', toAddress = ''charityB'', amount = 50, message = '''',
      timestamp_tx = ''2024-05-01T10:00:01.000Z'', transactionId = ''1f4d6327''\<rparr>"

definition example_genesis :: block where
  "example_genesis =
     \<lparr>index = 0, timestamp = ''2024-05-01T10:00:00.000Z'', transactions = [],
      previousHash = ''0'', hash = ''1d77ea2d'', nonce = 0\<rparr>"

definition example_block :: block where
  "example_block =
     \<lparr>index = 1, timestamp = ''2024-05-01T10:00:01.002Z'',
      transactions = [example_transaction], previousHash = ''1d77ea2d'',
      hash = ''360d13c8'', nonce = 0\<rparr>"

text \<open>
  The same run with a donation of 81000710, and the ledger it ends in.
\<close>

definition large_operations :: "operation list" where
  "large_operations =
     [AddTransaction ''donorA'' ''charityB'' 81000710 '''' ''2024-05-01T10:00:01.000Z''
        1714557601000,
      Mine ''2024-05-01T10:00:01.002Z'']"

definition large_transaction :: transaction where
  "large_transaction =
     \<lparr>fromAddress = ''donorA'', toAddress = ''charityB'', amount = 81000710, message = '''',
      timestamp_tx = ''2024-05-01T10:00:01.000Z'', transactionId = ''331e449d''\<rparr>"

definition large_block :: block where
  "large_block =
     \<lparr>index = 1, timestamp = ''2024-05-01T10:00:01.002Z'',
      transactions = [large_transaction], previousHash = ''1d77ea2d'',
      hash = ''342a9644'', nonce = 0\<rparr>"

definition large_ledger :: ledger where
  "large_ledger = \<lparr>chain = [example_genesis, large_block], pendingTransactions = []\<rparr>"

definition example_mined :: ledger where
  "example_mined = \<lparr>chain = [example_genesis, example_block], pendingTransactions = []\<rparr>"

text \<open>
  A donor, a charity, and the donor's request to give 50 to the charity.
\<close>

definition example_donor :: user where
  "example_donor = \<lparr>user_id = ''64b7f3a2c9e1d4f5a6b7c8d9'', role = ''donor'',
                      displayName = ''Alice''\<rparr>"

definition example_charity :: user where
  "example_charity = \<lparr>user_id = ''64b7f3a2c9e1d4f5a6b7c8da'', role = ''charity'',
                        displayName = ''Food Bank''\<rparr>"

definition example_findById :: "string \<Rightarrow> error + user option" where
  "example_findById i =
     (if i = ''64b7f3a2c9e1d4f5a6b7c8d9'' then Inr (Some example_donor)
      else if i = ''64b7f3a2c9e1d4f5a6b7c8da'' then Inr (Some example_charity)
      else Inr None)"

definition example_app :: app where
  "example_app = \<lparr>findById = example_findById, donations = [],
                    blockchainService = example_ledger\<rparr>"

definition example_request :: request where
  "example_request = \<lparr>req_user_id = ''64b7f3a2c9e1d4f5a6b7c8d9'',
                        req_charityId = ''64b7f3a2c9e1d4f5a6b7c8da'',
                        req_amount = 50, req_message = Some ''''\<rparr>"

definition example_readings :: readings where
  "example_readings = \<lparr>tx_now = ''2024-05-01T10:00:01.000Z'', tx_ms = 1714557601000,
                         new_id = ''6632154100000000000000a1'', created_ms = 1714557601001,
                         block_now = ''2024-05-01T10:00:01.002Z''\<rparr>"

text \<open>
  The ledger object and the store after construction, and a transaction that no call of
  \<open>addDonationTransaction\<close> made.
\<close>

definition example_object :: ledger_object where
  "example_object =
     fst (constructor_h ''2024-05-01T10:00:00.000Z'' ''2024-05-01T10:00:00.000Z'' empty_heap)"

definition example_heap :: heap where
  "example_heap =
     snd (constructor_h ''2024-05-01T10:00:00.000Z'' ''2024-05-01T10:00:00.000Z'' empty_heap)"

definition forged_transaction :: transaction where
  "forged_transaction =
     \<lparr>fromAddress = ''charityB'', toAddress = ''mallory'', amount = 1000000, message = '''',
      timestamp_tx = ''2024-05-01T10:00:05.000Z'', transactionId = ''0''\<rparr>"



text \<open>
  A ledger whose block holds amounts that are not integral: \<open>charityB\<close> receives the
  double nearest 0.1, sends the double nearest 0.3 and receives the double nearest 0.2.
\<close>

definition fraction_transaction :: "string \<Rightarrow> string \<Rightarrow> rat \<Rightarrow> number transaction_of" where
  "fraction_transaction from to a =
     \<lparr>fromAddress = from, toAddress = to, amount = Finite a, message = '''',
      timestamp_tx = ''2024-05-01T10:00:01.000Z'', transactionId = ''0''\<rparr>"

definition fraction_ledger :: "number ledger_of" where
  "fraction_ledger =
     \<lparr>chain =
        [\<lparr>index = 0, timestamp = ''2024-05-01T10:00:00.000Z'', transactions = [],
          previousHash = ''0'', hash = ''1d77ea2d'', nonce = 0\<rparr>,
         \<lparr>index = 1, timestamp = ''2024-05-01T10:00:02.002Z'',
          transactions =
            [fraction_transaction ''donorA'' ''charityB'' (3602879701896397 / 36028797018963968),
             fraction_transaction ''charityB'' ''donorA'' (5404319552844595 / 18014398509481984),
             fraction_transaction ''donorA'' ''charityB'' (3602879701896397 / 18014398509481984)],
          previousHash = ''1d77ea2d'', hash = ''0'', nonce = 0\<rparr>],
      pendingTransactions = []\<rparr>"

section \<open>Properties\<close>

subsection \<open>The loop of the validity check\<close>

declare isChainValid_loop.simps [simp del]

lemma isChainValid_loop_iff:
  "isChainValid_loop c i \<longleftrightarrow> (\<forall>j. i \<le> j \<and> j < length c \<longrightarrow> block_ok c j)"
proof (induction c i rule: isChainValid_loop.induct)
  case (1 c i)
  show ?case
  proof (cases "i < length c")
    case False
    then show ?thesis by (subst isChainValid_loop.simps) auto
  next
    case True
    show ?thesis
    proof (cases "block_ok c i")
      case False
      then have "\<not> isChainValid_loop c i"
        using True by (subst isChainValid_loop.simps) (auto simp: block_ok_def Let_def)
      moreover have "\<not> (\<forall>j. i \<le> j \<and> j < length c \<longrightarrow> block_ok c j)"
        using True False by blast
      ultimately show ?thesis by blast
    next
      case ok: True
      then have "isChainValid_loop c i = isChainValid_loop c (i + 1)"
        using True by (subst isChainValid_loop.simps) (auto simp: block_ok_def Let_def)
      also have "\<dots> \<longleftrightarrow> (\<forall>j. i + 1 \<le> j \<and> j < length c \<longrightarrow> block_ok c j)"
        using "1.IH" True ok by (simp add: block_ok_def)
      also have "\<dots> \<longleftrightarrow> (\<forall>j. i \<le> j \<and> j < length c \<longrightarrow> block_ok c j)"
        using ok by (metis Suc_eq_plus1 Suc_leI le_neq_implies_less le_simps(3) less_or_eq_imp_le)
      finally show ?thesis .
    qed
  qed
qed

subsection \<open>Every reachable ledger is valid\<close>

lemma well_formed_constructor: "well_formed (constructor t1 t2)"
  by (simp add: well_formed_def constructor_def initializeBlockchain_def createGenesisBlock_def
      isChainValid_def isChainValid_loop_iff Let_def)

lemma chain_addDonationTransaction:
  "chain (snd (addDonationTransaction d c a m now ms s)) = chain s"
  by (simp add: addDonationTransaction_def Let_def)

lemma minePendingTransactions_nonempty:
  assumes "chain s \<noteq> []"
  shows "minePendingTransactions now s =
           Inr (\<lparr>index = index (last (chain s)) + 1, timestamp = now,
                  transactions = pendingTransactions s, previousHash = hash (last (chain s)),
                  hash = calculateHash (index (last (chain s)) + 1) (hash (last (chain s)))
                           (pendingTransactions s) now 0,
                  nonce = 0\<rparr>,
                s\<lparr>chain := chain s @
                   [\<lparr>index = index (last (chain s)) + 1, timestamp = now,
                     transactions = pendingTransactions s, previousHash = hash (last (chain s)),
                     hash = calculateHash (index (last (chain s)) + 1) (hash (last (chain s)))
                              (pendingTransactions s) now 0,
                     nonce = 0\<rparr>],
                  pendingTransactions := []\<rparr>)"
  using assms
  by (simp add: minePendingTransactions_def createNewBlock_def getLatestBlock_def Let_def
      last_conv_nth)

lemma block_ok_append:
  assumes "1 \<le> j" "j < length c"
  shows "block_ok (c @ bs) j = block_ok c j"
proof -
  from assms have "j - 1 < length c" by arith
  with assms show ?thesis by (simp add: block_ok_def nth_append)
qed

lemma well_formed_mine:
  assumes "well_formed s" and "minePendingTransactions now s = Inr (b, s')"
  shows "well_formed s'"
proof -
  from assms(1) have ne: "chain s \<noteq> []"
    and ok: "\<forall>j. 1 \<le> j \<and> j < length (chain s) \<longrightarrow> block_ok (chain s) j"
    by (simp_all add: well_formed_def isChainValid_def isChainValid_loop_iff)
  from assms(2) minePendingTransactions_nonempty [OF ne, of now]
  have s': "chain s' = chain s @ [b]"
    and b: "hash b = calculateHash (index b) (previousHash b) (transactions b) (timestamp b) (nonce b)"
           "previousHash b = hash (last (chain s))"
    by auto
  have "block_ok (chain s') j" if "1 \<le> j" "j < length (chain s')" for j
  proof (cases "j < length (chain s)")
    case True
    then show ?thesis using ok that by (simp add: s' block_ok_append)
  next
    case False
    then have "j = length (chain s)" using that by (simp add: s')
    then show ?thesis using b ne that
      by (simp add: block_ok_def s' nth_append last_conv_nth)
  qed
  then show ?thesis
    by (simp add: well_formed_def isChainValid_def isChainValid_loop_iff s')
qed

lemma well_formed_apply:
  assumes "well_formed s"
  shows "\<exists>s'. apply_operation x s = Inr s' \<and> well_formed s'"
proof (cases x)
  case (AddTransaction d c a m now ms)
  then show ?thesis using assms
    by (simp add: well_formed_def isChainValid_def chain_addDonationTransaction)
next
  case (Mine now)
  from assms have ne: "chain s \<noteq> []" by (simp add: well_formed_def)
  obtain b s' where m: "minePendingTransactions now s = Inr (b, s')"
    using minePendingTransactions_nonempty [OF ne] by blast
  then show ?thesis using well_formed_mine [OF assms m] Mine by simp
qed

lemma well_formed_run:
  "well_formed s \<Longrightarrow> \<exists>s'. run ops s = Inr s' \<and> well_formed s'"
proof (induction ops arbitrary: s)
  case Nil
  then show ?case by simp
next
  case (Cons x xs)
  from well_formed_apply [OF Cons.prems, of x]
  obtain s1 where "apply_operation x s = Inr s1" "well_formed s1" by blast
  then show ?case using Cons.IH [of s1] by simp
qed

text \<open>
  C1. Start from a freshly constructed ledger and perform any sequence of
  \<open>addDonationTransaction\<close> and \<open>minePendingTransactions\<close> calls, with any clock
  readings. None of the calls throws, a further \<open>minePendingTransactions\<close> succeeds,
  and \<open>isChainValid\<close> returns true right after it. Since the sequence before that call
  is arbitrary, this covers every mine of every sequence.
\<close>

theorem verify_after_each_mine:
  "\<exists>s0 b s. run ops (constructor t1 t2) = Inr s0 \<and>
             minePendingTransactions now s0 = Inr (b, s) \<and> isChainValid s = True"
proof -
  obtain s0 where r: "run ops (constructor t1 t2) = Inr s0" and w: "well_formed s0"
    using well_formed_run [OF well_formed_constructor] by blast
  then have ne: "chain s0 \<noteq> []" by (simp add: well_formed_def)
  obtain b s where m: "minePendingTransactions now s0 = Inr (b, s)"
    using minePendingTransactions_nonempty [OF ne] by blast
  with well_formed_mine [OF w m] r show ?thesis by (auto simp: well_formed_def)
qed

subsection \<open>Evaluating the concrete run\<close>

lemmas hash_eval = sha256_def sha256_step_def Number_toString16_def Number_toString_def
  radix_string.simps digit_char_def

lemmas json_eval = JSON_stringify_def json_transaction_def json_member_def json_string_def
  json_escape_def dq_def hex4_def

lemma example_ledger_value:
  "example_ledger = \<lparr>chain = [example_genesis], pendingTransactions = []\<rparr>"
  by (simp add: example_ledger_def constructor_def initializeBlockchain_def
      createGenesisBlock_def example_genesis_def calculateHash_def hash_eval json_eval Let_def)

lemma example_transaction_id:
  "generateTransactionId ''donorA'' ''charityB'' 50 1714557601000 = ''1f4d6327''"
  by (simp add: generateTransactionId_def hash_eval)

lemma example_block_hash:
  "calculateHash 1 ''1d77ea2d'' [example_transaction] ''2024-05-01T10:00:01.002Z'' 0 = ''360d13c8''"
  by (simp add: calculateHash_def example_transaction_def hash_eval json_eval)

lemma example_run:
  "run example_operations example_ledger =
     Inr \<lparr>chain = [example_genesis, example_block], pendingTransactions = []\<rparr>"
  by (simp add: example_operations_def example_ledger_value addDonationTransaction_def
      minePendingTransactions_def createNewBlock_def getLatestBlock_def Let_def
      example_transaction_id example_block_hash [unfolded example_transaction_def]
      example_genesis_def example_block_def example_transaction_def)

lemma example_chain_valid:
  "isChainValid \<lparr>chain = [example_genesis, example_block], pendingTransactions = []\<rparr>"
proof -
  have "block_ok [example_genesis, example_block] j" if "1 \<le> j" "j < 2" for j
  proof -
    from that have "j = 1" by simp
    then show ?thesis
      using example_block_hash
      by (simp add: block_ok_def example_block_def example_genesis_def)
  qed
  then show ?thesis by (simp add: isChainValid_def isChainValid_loop_iff)
qed

subsection \<open>Construction\<close>

text \<open>
  C7. A freshly constructed ledger has exactly one block; that block's \<open>previousHash\<close> is
  the string \<open>0\<close> and its transaction list is empty. The pending buffer is empty too.
\<close>

theorem genesis_invariant:
  "length (chain (constructor t1 t2)) = 1 \<and>
   previousHash (chain (constructor t1 t2) ! 0) = ''0'' \<and>
   length (transactions (chain (constructor t1 t2) ! 0)) = 0 \<and>
   pendingTransactions (constructor t1 t2) = []"
  by (simp add: constructor_def initializeBlockchain_def createGenesisBlock_def Let_def)

subsection \<open>Adding a transaction\<close>

text \<open>
  C3, as the code has it. \<open>addDonationTransaction\<close> makes no check on the amount and has
  no failure: for every amount, positive or not, it returns the transaction built from
  its arguments, appends exactly that transaction to the pending buffer and leaves the
  chain unchanged.
\<close>

theorem addDonationTransaction_never_fails:
  "addDonationTransaction donorId charityId amt msg now ms s =
     (\<lparr>fromAddress = donorId, toAddress = charityId, amount = amt, message = msg,
       timestamp_tx = now, transactionId = generateTransactionId donorId charityId amt ms\<rparr>,
      s\<lparr>pendingTransactions := pendingTransactions s @
         [\<lparr>fromAddress = donorId, toAddress = charityId, amount = amt, message = msg,
           timestamp_tx = now,
           transactionId = generateTransactionId donorId charityId amt ms\<rparr>]\<rparr>) \<and>
   chain (snd (addDonationTransaction donorId charityId amt msg now ms s)) = chain s \<and>
   length (pendingTransactions (snd (addDonationTransaction donorId charityId amt msg now ms s)))
     = length (pendingTransactions s) + 1"
  by (simp add: addDonationTransaction_def Let_def)

text \<open>
  C3 as stated fails: with amount \<open>-5\<close> the call returns a transaction of amount \<open>-5\<close>
  and the pending buffer is no longer what it was; with amount \<open>0\<close> the buffer of the
  fresh ledger has one element afterwards.
\<close>

theorem non_positive_amount_accepted:
  "amount (fst (addDonationTransaction ''donorA'' ''charityB'' (- 5) '''' ''2024-05-01T10:00:01.000Z''
      1714557601000 example_ledger)) = - 5 \<and>
   pendingTransactions (snd (addDonationTransaction ''donorA'' ''charityB'' (- 5) ''''
      ''2024-05-01T10:00:01.000Z'' 1714557601000 example_ledger))
     \<noteq> pendingTransactions example_ledger \<and>
   length (pendingTransactions (snd (addDonationTransaction ''donorA'' ''charityB'' 0 ''''
      ''2024-05-01T10:00:01.000Z'' 1714557601000 example_ledger))) = 1"
  by (simp add: addDonationTransaction_def Let_def example_ledger_def constructor_def
      initializeBlockchain_def createGenesisBlock_def)

subsection \<open>Mining\<close>

text \<open>
  C4. In every ledger state reached from the constructor by any sequence of operations,
  \<open>minePendingTransactions\<close> succeeds, whatever the pending buffer holds (also when it
  is empty). The returned block has the index of the last block plus one, the last
  block's hash as \<open>previousHash\<close>, the pending buffer of the moment of the call as its
  transactions and the hash of these fields; it is the new last element of the chain,
  and the pending buffer is empty afterwards.
\<close>

theorem mine_appends_block:
  "\<exists>s lastBlock b s'.
     run ops (constructor t1 t2) = Inr s \<and>
     getLatestBlock s = Some lastBlock \<and>
     minePendingTransactions now s = Inr (b, s') \<and>
     index b = index lastBlock + 1 \<and>
     previousHash b = hash lastBlock \<and>
     transactions b = pendingTransactions s \<and>
     hash b = calculateHash (index b) (previousHash b) (transactions b) (timestamp b) 0 \<and>
     chain s' = chain s @ [b] \<and>
     getLatestBlock s' = Some b \<and>
     pendingTransactions s' = []"
proof -
  obtain s where r: "run ops (constructor t1 t2) = Inr s" and w: "well_formed s"
    using well_formed_run [OF well_formed_constructor] by blast
  then have ne: "chain s \<noteq> []" by (simp add: well_formed_def)
  then have l: "getLatestBlock s = Some (last (chain s))"
    by (simp add: getLatestBlock_def last_conv_nth)
  note m = minePendingTransactions_nonempty [OF ne, of now]
  show ?thesis
    apply (rule exI [of _ s])
    apply (rule exI [of _ "last (chain s)"])
    apply (subst m)
    apply (simp add: r l ne getLatestBlock_def last_conv_nth)
    done
qed

subsection \<open>The genesis block is outside the validity check\<close>

lemma isChainValid_genesis_irrelevant:
  assumes "hash g' = hash g"
  shows "isChainValid_loop (g' # rest) 1 = isChainValid_loop (g # rest) 1"
proof -
  have "block_ok (g' # rest) j = block_ok (g # rest) j" if "1 \<le> j" for j
  proof (cases j)
    case 0
    then show ?thesis using that by simp
  next
    case (Suc k)
    then show ?thesis using assms by (cases k) (simp_all add: block_ok_def)
  qed
  then show ?thesis by (simp add: isChainValid_loop_iff)
qed

text \<open>
  C10. \<open>isChainValid\<close> never recomputes the genesis block's hash: if a chain passes the
  check, it still passes after the genesis block's transactions and timestamp are
  replaced by any others while its stored hash stays. A chain of length 0 or 1 passes
  the check whatever it holds.
\<close>

theorem genesis_never_checked:
  "(isChainValid (s\<lparr>chain := g # rest\<rparr>) \<longrightarrow>
      isChainValid (s\<lparr>chain := g\<lparr>transactions := txs, timestamp := ts\<rparr> # rest\<rparr>)) \<and>
   (length (chain s) \<le> 1 \<longrightarrow> isChainValid s)"
proof -
  have "isChainValid s" if "length (chain s) \<le> 1"
    using that by (auto simp: isChainValid_def isChainValid_loop_iff)
  moreover have "isChainValid (s\<lparr>chain := g\<lparr>transactions := txs, timestamp := ts\<rparr> # rest\<rparr>)
      = isChainValid (s\<lparr>chain := g # rest\<rparr>)"
    using isChainValid_genesis_irrelevant [of "g\<lparr>transactions := txs, timestamp := ts\<rparr>" g rest]
    by (simp add: isChainValid_def)
  ultimately show ?thesis by blast
qed

text \<open>
  On the concrete run: the mined chain passes the check, and still passes after the
  genesis block got a transaction and a timestamp of 1999; the empty chain and the
  freshly constructed ledger pass too.
\<close>

theorem genesis_never_checked_witness:
  "isChainValid \<lparr>chain = [example_genesis, example_block], pendingTransactions = []\<rparr> \<and>
   isChainValid
     \<lparr>chain = [example_genesis\<lparr>transactions := [example_transaction],
                                 timestamp := ''1999-12-31T23:59:59.999Z''\<rparr>, example_block],
      pendingTransactions = []\<rparr> \<and>
   isChainValid \<lparr>chain = [], pendingTransactions = []\<rparr> \<and>
   isChainValid example_ledger"
proof -
  let ?s = "\<lparr>chain = [example_genesis, example_block], pendingTransactions = []\<rparr>"
  note t = genesis_never_checked [where s = ?s and g = example_genesis
      and rest = "[example_block]" and txs = "[example_transaction]"
      and ts = "''1999-12-31T23:59:59.999Z''"]
  note e = genesis_never_checked [where s = "\<lparr>chain = [], pendingTransactions = []\<rparr>"]
  note g = genesis_never_checked [where s = example_ledger]
  show ?thesis
    using t e g example_chain_valid by (simp add: example_ledger_value)
qed

subsection \<open>Tampering with an amount\<close>

lemma block_ok_tampered_other:
  assumes "k \<noteq> i" "1 \<le> k" "k < length c" "hash b' = hash (c ! i)" "i < length c"
  shows "block_ok (c[i := b']) k = block_ok c k"
proof -
  have "hash (c[i := b'] ! (k - 1)) = hash (c ! (k - 1))"
    using assms by (cases "k - 1 = i") simp_all
  then show ?thesis using assms by (simp add: block_ok_def)
qed

lemma isChainValid_tampered:
  assumes valid: "isChainValid s" and i: "1 \<le> i" "i < length (chain s)"
    and b': "hash b' = hash (chain s ! i)" "previousHash b' = previousHash (chain s ! i)"
  shows "isChainValid (s\<lparr>chain := (chain s)[i := b']\<rparr>) \<longleftrightarrow>
           hash b' = calculateHash (index b') (previousHash b') (transactions b')
                       (timestamp b') (nonce b')"
proof -
  let ?c = "chain s" and ?c' = "(chain s)[i := b']"
  from valid have ok: "block_ok ?c k" if "1 \<le> k" "k < length ?c" for k
    using that by (simp add: isChainValid_def isChainValid_loop_iff)
  have others: "block_ok ?c' k" if "1 \<le> k" "k < length ?c" "k \<noteq> i" for k
    using that ok [of k] block_ok_tampered_other [of k i ?c b'] b' i by simp
  have link: "previousHash b' = hash (?c' ! (i - 1))"
    using ok [of i] i b' by (simp add: block_ok_def)
  have at_i: "block_ok ?c' i \<longleftrightarrow>
      hash b' = calculateHash (index b') (previousHash b') (transactions b')
                  (timestamp b') (nonce b')"
    using i link by (simp add: block_ok_def)
  have "isChainValid (s\<lparr>chain := ?c'\<rparr>) \<longleftrightarrow> (\<forall>k. 1 \<le> k \<and> k < length ?c \<longrightarrow> block_ok ?c' k)"
    by (simp add: isChainValid_def isChainValid_loop_iff)
  also have "\<dots> \<longleftrightarrow> block_ok ?c' i"
    using others i by blast
  finally show ?thesis using at_i by simp
qed

text \<open>
  C2, as the code has it. In a chain built by any sequence of operations, change the
  amount of transaction \<open>j\<close> of a mined non-genesis block \<open>i\<close> to \<open>a\<close>. Then
  \<open>isChainValid\<close> returns true exactly when the hash recomputed over the block with the
  changed amount equals the block's stored hash, and false exactly when the two differ.
  The hash is a 32-bit rolling hash, so different amounts can have the same hash.
\<close>

theorem tampering_detected_iff_hash_differs:
  assumes "run ops (constructor t1 t2) = Inr s"
    and "1 \<le> i" and "i < length (chain s)"
    and "j < length (transactions (chain s ! i))"
  shows "isChainValid (tamper_amount i j a s) \<longleftrightarrow>
           calculateHash (index (chain s ! i)) (previousHash (chain s ! i))
             ((transactions (chain s ! i))[j := (transactions (chain s ! i) ! j)\<lparr>amount := a\<rparr>])
             (timestamp (chain s ! i)) (nonce (chain s ! i))
           = hash (chain s ! i)"
proof -
  from assms(1) have "well_formed s"
    using well_formed_run [OF well_formed_constructor, of ops t1 t2] by simp
  then have valid: "isChainValid s" by (simp add: well_formed_def)
  show ?thesis
    unfolding tamper_amount_def
    by (subst isChainValid_tampered [OF valid assms(2,3)]) auto
qed

lemma example_tampered_hash:
  "calculateHash 1 ''1d77ea2d'' [example_transaction\<lparr>amount := 51\<rparr>]
     ''2024-05-01T10:00:01.002Z'' 0 = ''7637fa89''"
  by (simp add: calculateHash_def example_transaction_def hash_eval json_eval)

text \<open>
  On the concrete run: changing the mined donation's amount from 50 to 51 changes the
  recomputed hash of block 1 from \<open>360d13c8\<close> to \<open>7637fa89\<close>, and \<open>isChainValid\<close> returns
  false.
\<close>

theorem tampering_detected_iff_hash_differs_witness:
  "run example_operations (constructor ''2024-05-01T10:00:00.000Z'' ''2024-05-01T10:00:00.000Z'')
     = Inr example_mined \<and>
   (1::nat) \<le> 1 \<and> 1 < length (chain example_mined) \<and>
   0 < length (transactions (chain example_mined ! 1)) \<and>
   isChainValid (tamper_amount 1 0 51 example_mined) = False"
proof -
  have r: "run example_operations (constructor ''2024-05-01T10:00:00.000Z''
      ''2024-05-01T10:00:00.000Z'') = Inr example_mined"
    using example_run by (simp add: example_ledger_def example_mined_def)
  have l: "1 < length (chain example_mined)"
    "0 < length (transactions (chain example_mined ! 1))"
    by (simp_all add: example_mined_def example_block_def)
  note t = tampering_detected_iff_hash_differs [OF r order_refl l, of 51]
  have "\<not> isChainValid (tamper_amount 1 0 51 example_mined)"
    unfolding t using example_tampered_hash
    by (simp add: example_mined_def example_block_def)
  with r l show ?thesis by simp
qed

text \<open>
  Why some amounts are interchangeable. One round of the loop of \<open>sha256\<close> maps \<open>hash\<close>
  to \<open>31 * hash + char\<close> in 32 bits. Over the eight digits of \<open>81000710\<close> and of
  \<open>10721006\<close> the results differ by \<open>45 * 2^32\<close>, which is 0 in 32 bits: the two
  numerals have the same hash after any prefix and before any suffix.
\<close>

lemma sha256_loop_append:
  "sha256_loop (xs @ ys) h = sha256_loop ys (sha256_loop xs h)"
  by (induction xs arbitrary: h) simp_all

lemma sha256_step_linear: "sha256_step h c = 31 * h + of_nat (of_char c)"
  by (simp add: sha256_step_def push_bit_eq_mult)

lemma colliding_digits:
  "sha256_loop ''81000710'' h = sha256_loop ''10721006'' h"
proof -
  have "sha256_loop ''81000710'' h = 852891037441 * h + 1585614083231"
    by (simp add: sha256_step_linear algebra_simps)
  moreover have "sha256_loop ''10721006'' h = 852891037441 * h + 1392340554911"
    by (simp add: sha256_step_linear algebra_simps)
  moreover have "(1585614083231 :: 32 word) = 1392340554911"
    by simp
  ultimately show ?thesis by simp
qed

lemma colliding_amounts:
  "sha256 (p @ Number_toString 81000710 @ q) = sha256 (p @ Number_toString 10721006 @ q)"
proof -
  have n: "Number_toString 81000710 = ''81000710''" "Number_toString 10721006 = ''10721006''"
    by (simp_all add: Number_toString_def radix_string.simps digit_char_def)
  have "sha256_loop (p @ ''81000710'' @ q) 0 = sha256_loop (p @ ''10721006'' @ q) 0"
    by (simp only: sha256_loop_append colliding_digits)
  then show ?thesis
    unfolding n sha256_def by simp
qed

lemma large_ledger_run: "run large_operations example_ledger = Inr large_ledger"
proof -
  have id: "generateTransactionId ''donorA'' ''charityB'' 81000710 1714557601000 = ''331e449d''"
    by (simp add: generateTransactionId_def hash_eval)
  have h: "calculateHash 1 ''1d77ea2d'' [large_transaction] ''2024-05-01T10:00:01.002Z'' 0
             = ''342a9644''"
    by (simp add: calculateHash_def large_transaction_def hash_eval json_eval)
  show ?thesis
    by (simp add: large_operations_def example_ledger_value addDonationTransaction_def
      minePendingTransactions_def createNewBlock_def getLatestBlock_def Let_def
      id h [unfolded large_transaction_def]
      example_genesis_def large_block_def large_transaction_def large_ledger_def)
qed

lemma large_tampered_hash:
  "calculateHash 1 ''1d77ea2d'' [large_transaction\<lparr>amount := 10721006\<rparr>]
     ''2024-05-01T10:00:01.002Z'' 0 = ''342a9644''"
  by (simp add: calculateHash_def large_transaction_def hash_eval json_eval)

text \<open>
  C2 as stated fails: a donation of 81000710 is mined into block 1; changing its amount
  to 10721006 leaves the recomputed hash of the block at \<open>342a9644\<close>, and \<open>isChainValid\<close>
  returns true on the corrupted chain.
\<close>

theorem tampered_amount_passes_verification:
  "run large_operations (constructor ''2024-05-01T10:00:00.000Z'' ''2024-05-01T10:00:00.000Z'')
     = Inr large_ledger \<and>
   amount (transactions (chain large_ledger ! 1) ! 0) = 81000710 \<and>
   amount (transactions (chain (tamper_amount 1 0 10721006 large_ledger) ! 1) ! 0) = 10721006 \<and>
   isChainValid (tamper_amount 1 0 10721006 large_ledger) = True"
proof -
  have t: "tamper_amount 1 0 10721006 large_ledger =
      \<lparr>chain = [example_genesis, large_block\<lparr>transactions := [large_transaction\<lparr>amount := 10721006\<rparr>]\<rparr>],
       pendingTransactions = []\<rparr>"
    by (simp add: tamper_amount_def large_ledger_def large_block_def)
  have "block_ok [example_genesis,
      large_block\<lparr>transactions := [large_transaction\<lparr>amount := 10721006\<rparr>]\<rparr>] k"
    if "1 \<le> k" "k < 2" for k
  proof -
    from that have "k = 1" by simp
    then show ?thesis
      using large_tampered_hash by (simp add: block_ok_def large_block_def example_genesis_def)
  qed
  then have v: "isChainValid (tamper_amount 1 0 10721006 large_ledger)"
    unfolding t by (simp add: isChainValid_def isChainValid_loop_iff)
  have a: "amount (transactions (chain large_ledger ! 1) ! 0) = 81000710"
    by (simp add: large_ledger_def large_block_def large_transaction_def)
  have a': "amount (transactions (chain (tamper_amount 1 0 10721006 large_ledger) ! 1) ! 0)
      = 10721006"
    unfolding t by simp
  from v a a' large_ledger_run show ?thesis
    unfolding example_ledger_def by blast
qed

subsection \<open>Transaction ids\<close>

text \<open>
  C8. The id is the hash of \<open>from + to + amount + getTime()\<close>. Two calls with the same
  donor, charity and amount in the same millisecond get the same id; so do two such calls
  at 01:12:01.006 and 20:43:20.710 of 15 November 2023, whose clock values have the same
  hash; and so do calls for \<open>ab\<close>, \<open>c\<close> and for \<open>a\<close>, \<open>bc\<close> in the same millisecond. The
  ids are not distinct.
\<close>

theorem duplicate_transaction_ids:
  "transactionId (fst (addDonationTransaction ''donorA'' ''charityB'' 50 ''''
       ''2024-05-01T10:00:01.000Z'' 1714557601000 example_ledger)) = ''1f4d6327'' \<and>
   transactionId (fst (addDonationTransaction ''donorA'' ''charityB'' 50 ''''
       ''2024-05-01T10:00:01.000Z'' 1714557601000
       (snd (addDonationTransaction ''donorA'' ''charityB'' 50 ''''
          ''2024-05-01T10:00:01.000Z'' 1714557601000 example_ledger)))) = ''1f4d6327'' \<and>
   transactionId (fst (addDonationTransaction ''donorA'' ''charityB'' 50 ''''
       ''2023-11-15T01:12:01.006Z'' 1700010721006 example_ledger)) = ''3c1289b7'' \<and>
   transactionId (fst (addDonationTransaction ''donorA'' ''charityB'' 50 ''''
       ''2023-11-15T20:43:20.710Z'' 1700081000710
       (snd (addDonationTransaction ''donorA'' ''charityB'' 50 ''''
          ''2023-11-15T01:12:01.006Z'' 1700010721006 example_ledger)))) = ''3c1289b7'' \<and>
   transactionId (fst (addDonationTransaction ''ab'' ''c'' 50 ''''
       ''2024-05-01T10:00:01.000Z'' 1714557601000 example_ledger)) = ''1735a996'' \<and>
   transactionId (fst (addDonationTransaction ''a'' ''bc'' 50 ''''
       ''2024-05-01T10:00:01.000Z'' 1714557601000
       (snd (addDonationTransaction ''ab'' ''c'' 50 ''''
          ''2024-05-01T10:00:01.000Z'' 1714557601000 example_ledger)))) = ''1735a996''"
proof -
  have "generateTransactionId ''donorA'' ''charityB'' 50 1714557601000 = ''1f4d6327''"
    by (simp add: generateTransactionId_def hash_eval)
  moreover have "generateTransactionId ''donorA'' ''charityB'' 50 1700010721006 = ''3c1289b7''"
    by (simp add: generateTransactionId_def hash_eval)
  moreover have "generateTransactionId ''donorA'' ''charityB'' 50 1700081000710 = ''3c1289b7''"
    by (simp add: generateTransactionId_def hash_eval)
  moreover have "generateTransactionId ''ab'' ''c'' 50 1714557601000 = ''1735a996''"
    by (simp add: generateTransactionId_def hash_eval)
  moreover have "generateTransactionId ''a'' ''bc'' 50 1714557601000 = ''1735a996''"
    by (simp add: generateTransactionId_def hash_eval)
  ultimately show ?thesis
    by (simp add: addDonationTransaction_def Let_def)
qed

subsection \<open>Recording a donation\<close>

lemma save_fails_without_hash:
  "blockchainTxHash d = None \<Longrightarrow> save d ds = Inl ValidationError"
  by (simp add: save_def validate_def)

lemma post_donation_never_created:
  "fst (post_donation req rd st) \<noteq> Created j i h"
  by (auto simp: post_donation_def Let_def addDonationTransaction_def transaction_hash_def
      save_fails_without_hash split: sum.splits option.splits prod.splits)

lemma post_donation_chain_unchanged:
  "chain (blockchainService (snd (post_donation req rd st))) = chain (blockchainService st)"
  by (auto simp: post_donation_def Let_def addDonationTransaction_def transaction_hash_def
      save_fails_without_hash split: sum.splits option.splits prod.splits)

text \<open>
  C5. A donor's request to give 50 to an existing charity: the route adds the transaction
  to the pending buffer, the Donation document fails validation because its required
  \<open>blockchainTxHash\<close> is \<open>undefined\<close>, and the route answers status 500. No block is
  mined, the chain is still the genesis block alone, and the transaction stays pending.
\<close>

theorem post_donation_answers_server_error:
  "post_donation example_request example_readings example_app =
     (Message 500 ''Server error'',
      example_app\<lparr>blockchainService :=
        \<lparr>chain = [example_genesis],
         pendingTransactions =
           [\<lparr>fromAddress = ''64b7f3a2c9e1d4f5a6b7c8d9'', toAddress = ''64b7f3a2c9e1d4f5a6b7c8da'',
             amount = 50, message = '''', timestamp_tx = ''2024-05-01T10:00:01.000Z'',
             transactionId = ''777b5a18''\<rparr>]\<rparr>\<rparr>)"
proof -
  have id: "generateTransactionId ''64b7f3a2c9e1d4f5a6b7c8d9'' ''64b7f3a2c9e1d4f5a6b7c8da'' 50
      1714557601000 = ''777b5a18''"
    by (simp add: generateTransactionId_def hash_eval)
  show ?thesis
    by (simp add: post_donation_def example_request_def example_readings_def example_app_def
        example_findById_def example_donor_def example_charity_def Let_def
        addDonationTransaction_def id transaction_hash_def save_fails_without_hash
        example_ledger_value)
qed

subsection \<open>The store and the ledger as a value\<close>

text \<open>
  The methods on the store do what the methods on values do: from a store of the kept
  shape that reads as the ledger \<open>s\<close>, each method ends in a store of that shape that
  reads as the result of the method on \<open>s\<close>.
\<close>

lemma read_all_cong:
  "\<forall>b \<in> set bs. cells h' (transactions b) = cells h (transactions b) \<Longrightarrow>
   read_all h' bs = read_all h bs"
  by (induction bs) (simp_all add: read_block_def read_transactions_def split: option.splits)

lemma read_all_append:
  "read_all h (xs @ ys) =
     (case read_all h xs of
        None \<Rightarrow> None
      | Some xs' \<Rightarrow> (case read_all h ys of None \<Rightarrow> None | Some ys' \<Rightarrow> Some (xs' @ ys')))"
  by (induction xs) (simp_all split: option.splits)

lemma read_all_last:
  "read_all h bs = Some c \<Longrightarrow> bs \<noteq> [] \<Longrightarrow>
   c \<noteq> [] \<and> index (last c) = index (last bs) \<and> hash (last c) = hash (last bs)"
proof (induction bs arbitrary: c)
  case Nil
  then show ?case by simp
next
  case (Cons b bs)
  then show ?case
    by (cases bs) (auto simp: read_block_def split: option.splits)
qed

lemma read_all_Nil_iff: "read_all h bs = Some [] \<longleftrightarrow> bs = []"
  by (cases bs) (auto split: option.splits)

lemma heap_ok_push:
  assumes ok: "heap_ok h this" and rd: "read_ledger h this = Some s"
  shows "\<exists>h'. push_transaction (pendingTransactions_ref this) tx h = Inr h' \<and>
              heap_ok h' this \<and>
              read_ledger h' this =
                Some (s\<lparr>pendingTransactions := pendingTransactions s @ [tx]\<rparr>)"
proof -
  let ?p = "pendingTransactions_ref this" and ?c = "chain_ref this"
  from ok obtain bs p where
    cb: "cells h ?c = Some (Blocks bs)" and cp: "cells h ?p = Some (Transactions p)"
    and bs: "\<forall>b \<in> set bs. transactions b < next_ref h \<and> transactions b \<noteq> ?p \<and>
               (\<exists>ts. cells h (transactions b) = Some (Transactions ts))"
    and lt: "?c < next_ref h" "?p < next_ref h"
    by (auto simp: heap_ok_def)
  from cb cp have ne: "?c \<noteq> ?p" by auto
  have nc: "\<forall>b \<in> set bs. transactions b \<noteq> ?c"
    using bs cb by auto
  let ?h' = "h\<lparr>cells := (cells h)(?p := Some (Transactions (p @ [tx])))\<rparr>"
  have run: "push_transaction ?p tx h = Inr ?h'"
    using cp by (simp add: push_transaction_def read_transactions_def)
  have ok': "heap_ok ?h' this"
    using cb cp bs lt ne nc by (auto simp: heap_ok_def)
  from rd cb cp obtain ch where ra: "read_all h bs = Some ch"
    and s: "s = \<lparr>chain = ch, pendingTransactions = p\<rparr>"
    by (auto simp: read_ledger_def read_blocks_def read_transactions_def split: option.splits)
  have "read_all ?h' bs = read_all h bs"
    using bs by (intro read_all_cong) simp
  then have "read_ledger ?h' this = Some (s\<lparr>pendingTransactions := pendingTransactions s @ [tx]\<rparr>)"
    using ra cb ne
    by (simp add: read_ledger_def read_blocks_def read_transactions_def s)
  with run ok' show ?thesis by blast
qed

lemma heap_ok_add:
  assumes ok: "heap_ok h this" and rd: "read_ledger h this = Some s"
  shows "\<exists>h'. addDonationTransaction_h d c a m now ms this h =
                Inr (fst (addDonationTransaction d c a m now ms s), h') \<and>
              heap_ok h' this \<and>
              read_ledger h' this = Some (snd (addDonationTransaction d c a m now ms s))"
  using heap_ok_push [OF ok rd, of "fst (addDonationTransaction d c a m now ms s)"]
  by (auto simp: addDonationTransaction_h_def addDonationTransaction_def Let_def)

lemma heap_ok_mine:
  assumes ok: "heap_ok h this" and rd: "read_ledger h this = Some s"
    and m: "minePendingTransactions now s = Inr (b', s')"
  shows "\<exists>b this' h'. minePendingTransactions_h now this h = Inr (b, this', h') \<and>
              heap_ok h' this' \<and> read_ledger h' this' = Some s' \<and>
              read_block h' b = Some b' \<and> chain_ref this' = chain_ref this"
proof -
  let ?p = "pendingTransactions_ref this" and ?c = "chain_ref this"
  from ok obtain bs p where
    cb: "cells h ?c = Some (Blocks bs)" and cp: "cells h ?p = Some (Transactions p)"
    and bs: "\<forall>b \<in> set bs. transactions b < next_ref h \<and> transactions b \<noteq> ?p \<and>
               (\<exists>ts. cells h (transactions b) = Some (Transactions ts))"
    and lt: "?c < next_ref h" "?p < next_ref h"
    by (auto simp: heap_ok_def)
  from cb cp have ne: "?c \<noteq> ?p" by auto
  from rd cb cp obtain ch where ra: "read_all h bs = Some ch"
    and s: "s = \<lparr>chain = ch, pendingTransactions = p\<rparr>"
    by (auto simp: read_ledger_def read_blocks_def read_transactions_def split: option.splits)
  from m have chne: "ch \<noteq> []"
    by (auto simp: minePendingTransactions_def createNewBlock_def getLatestBlock_def s
        split: if_splits)
  then have bsne: "bs \<noteq> []" using ra by (cases bs) auto
  note lastc = read_all_last [OF ra bsne]
  define b where "b = \<lparr>index = index (last bs) + 1, timestamp = now, transactions = ?p,
      previousHash = hash (last bs),
      hash = calculateHash (index (last bs) + 1) (hash (last bs)) p now 0, nonce = 0\<rparr>"
  from m chne lastc have b': "b' = \<lparr>index = index (last bs) + 1, timestamp = now,
      transactions = p, previousHash = hash (last bs),
      hash = calculateHash (index (last bs) + 1) (hash (last bs)) p now 0, nonce = 0\<rparr>"
    and s': "s' = \<lparr>chain = ch @ [b'], pendingTransactions = []\<rparr>"
    by (auto simp: minePendingTransactions_def createNewBlock_def getLatestBlock_def s Let_def
        last_conv_nth)
  let ?h1 = "h\<lparr>cells := (cells h)(?c := Some (Blocks (bs @ [b])))\<rparr>"
  let ?n = "next_ref h"
  let ?h2 = "?h1\<lparr>cells := (cells ?h1)(?n := Some (Transactions [])), next_ref := ?n + 1\<rparr>"
  let ?this' = "this\<lparr>pendingTransactions_ref := ?n\<rparr>"
  have run: "minePendingTransactions_h now this h = Inr (b, ?this', ?h2)"
    using cb cp bsne
    by (simp add: minePendingTransactions_h_def createNewBlock_h_def getLatestBlock_h_def
        read_blocks_def read_transactions_def push_block_def alloc_def Let_def b_def
        last_conv_nth)
  have nc: "\<forall>b \<in> set bs. transactions b \<noteq> ?c"
    using bs cb by auto
  have ok': "heap_ok ?h2 ?this'"
    using cb cp bs lt ne nc by (auto simp: heap_ok_def b_def)
  have old: "read_all ?h2 bs = read_all h bs"
    using bs lt nc by (intro read_all_cong) auto
  have new: "read_block ?h2 b = Some b'"
    using cp lt ne by (simp add: read_block_def read_transactions_def b_def b')
  have "read_ledger ?h2 ?this' = Some s'"
    using old new ra lt
    by (simp add: read_ledger_def read_blocks_def read_transactions_def read_all_append s')
  with run ok' new show ?thesis by auto
qed

lemma heap_ok_constructor:
  "heap_ok (snd (constructor_h t1 t2 empty_heap)) (fst (constructor_h t1 t2 empty_heap)) \<and>
   read_ledger (snd (constructor_h t1 t2 empty_heap)) (fst (constructor_h t1 t2 empty_heap))
     = Some (constructor t1 t2)"
  by (simp add: constructor_h_def empty_heap_def alloc_def initializeBlockchain_h_def
      createGenesisBlock_h_def push_block_def read_blocks_def read_transactions_def Let_def
      heap_ok_def read_ledger_def read_block_def constructor_def initializeBlockchain_def
      createGenesisBlock_def)

lemma run_h_refines:
  assumes "heap_ok h this" "read_ledger h this = Some s" "run ops s = Inr s'"
  shows "\<exists>this' h'. run_h ops (this, h) = Inr (this', h') \<and> heap_ok h' this' \<and>
           read_ledger h' this' = Some s'"
  using assms
proof (induction ops arbitrary: h this s)
  case Nil
  then show ?case by simp
next
  case (Cons x xs)
  show ?case
  proof (cases x)
    case (AddTransaction d c a m now ms)
    from heap_ok_add [OF Cons.prems(1,2), of d c a m now ms]
    obtain h1 where 1: "addDonationTransaction_h d c a m now ms this h =
        Inr (fst (addDonationTransaction d c a m now ms s), h1)"
      and 2: "heap_ok h1 this"
      and 3: "read_ledger h1 this = Some (snd (addDonationTransaction d c a m now ms s))"
      by blast
    from Cons.prems(3) AddTransaction
    have "run xs (snd (addDonationTransaction d c a m now ms s)) = Inr s'" by simp
    from Cons.IH [OF 2 3 this] 1 AddTransaction show ?thesis by simp
  next
    case (Mine now)
    from Cons.prems(3) Mine obtain b1 s1 where
      m: "minePendingTransactions now s = Inr (b1, s1)" and r: "run xs s1 = Inr s'"
      by (auto split: sum.splits)
    from heap_ok_mine [OF Cons.prems(1,2) m]
    obtain b this1 h1 where 1: "minePendingTransactions_h now this h = Inr (b, this1, h1)"
      and 2: "heap_ok h1 this1" and 3: "read_ledger h1 this1 = Some s1"
      by blast
    from Cons.IH [OF 2 3 r] 1 Mine show ?thesis by simp
  qed
qed

lemma reachable_heap:
  "\<exists>this h s. run_h ops (constructor_h t1 t2 empty_heap) = Inr (this, h) \<and>
     run ops (constructor t1 t2) = Inr s \<and> heap_ok h this \<and> read_ledger h this = Some s"
proof -
  obtain s where r: "run ops (constructor t1 t2) = Inr s"
    using well_formed_run [OF well_formed_constructor] by blast
  obtain this0 h0 where c: "constructor_h t1 t2 empty_heap = (this0, h0)"
    by (cases "constructor_h t1 t2 empty_heap")
  with heap_ok_constructor [of t1 t2]
  have "heap_ok h0 this0" "read_ledger h0 this0 = Some (constructor t1 t2)" by simp_all
  from run_h_refines [OF this r] c r show ?thesis by auto
qed

subsection \<open>What getBlockchain hands out\<close>

text \<open>
  C9, as the code has it. After any sequence of operations, \<open>getBlockchain\<close> returns the
  ledger's own references to its chain array and its pending array, not copies: the
  pending array read through the returned reference is the ledger's pending buffer, and
  after a caller pushes a transaction onto the returned array, the ledger's pending
  buffer ends with that transaction.
\<close>

theorem getBlockchain_returns_the_ledgers_arrays:
  "\<exists>this h s.
     run_h ops (constructor_h t1 t2 empty_heap) = Inr (this, h) \<and>
     run ops (constructor t1 t2) = Inr s \<and>
     read_ledger h this = Some s \<and>
     view_chain (getBlockchain_h this) = chain_ref this \<and>
     view_pendingTransactions (getBlockchain_h this) = pendingTransactions_ref this \<and>
     read_transactions h (view_pendingTransactions (getBlockchain_h this))
       = Some (pendingTransactions s) \<and>
     read_ledger (caller_pushes (getBlockchain_h this) tx h) this
       = Some (s\<lparr>pendingTransactions := pendingTransactions s @ [tx]\<rparr>)"
proof -
  from reachable_heap [of ops t1 t2] obtain this h s where
    r: "run_h ops (constructor_h t1 t2 empty_heap) = Inr (this, h)"
      "run ops (constructor t1 t2) = Inr s"
    and ok: "heap_ok h this" and rd: "read_ledger h this = Some s"
    by blast
  from heap_ok_push [OF ok rd, of tx] obtain h' where
    p: "push_transaction (pendingTransactions_ref this) tx h = Inr h'"
    and rd': "read_ledger h' this = Some (s\<lparr>pendingTransactions := pendingTransactions s @ [tx]\<rparr>)"
    by blast
  have pend: "read_transactions h (pendingTransactions_ref this) = Some (pendingTransactions s)"
    using rd by (auto simp: read_ledger_def split: option.splits)
  show ?thesis
    using r rd rd' p pend
    by (auto simp: getBlockchain_h_def caller_pushes_def)
qed

lemma example_heap_read: "read_ledger example_heap example_object = Some example_ledger"
  using heap_ok_constructor [of "''2024-05-01T10:00:00.000Z''" "''2024-05-01T10:00:00.000Z''"]
  by (simp add: example_heap_def example_object_def example_ledger_def)

lemma example_heap_ok: "heap_ok example_heap example_object"
  using heap_ok_constructor [of "''2024-05-01T10:00:00.000Z''" "''2024-05-01T10:00:00.000Z''"]
  by (simp add: example_heap_def example_object_def)

text \<open>
  C9 as stated fails: on the freshly constructed ledger, whose pending buffer is empty,
  a caller pushes a transaction onto the \<open>pendingTransactions\<close> array it got from
  \<open>getBlockchain\<close>; the ledger's pending buffer then holds that transaction, and the
  ledger's state is no longer what it was.
\<close>

theorem caller_changes_pending_buffer:
  "read_ledger example_heap example_object = Some example_ledger \<and>
   pendingTransactions example_ledger = [] \<and>
   read_ledger (caller_pushes (getBlockchain_h example_object) forged_transaction example_heap)
     example_object
     = Some (example_ledger\<lparr>pendingTransactions := [forged_transaction]\<rparr>) \<and>
   read_ledger (caller_pushes (getBlockchain_h example_object) forged_transaction example_heap)
     example_object
     \<noteq> read_ledger example_heap example_object"
proof -
  from heap_ok_push [OF example_heap_ok example_heap_read, of forged_transaction]
  obtain h' where p: "push_transaction (pendingTransactions_ref example_object)
      forged_transaction example_heap = Inr h'"
    and rd': "read_ledger h' example_object =
      Some (example_ledger\<lparr>pendingTransactions :=
        pendingTransactions example_ledger @ [forged_transaction]\<rparr>)"
    by blast
  have e: "pendingTransactions example_ledger = []"
    by (simp add: example_ledger_value)
  have c: "caller_pushes (getBlockchain_h example_object) forged_transaction example_heap = h'"
    using p by (simp add: caller_pushes_def getBlockchain_h_def)
  show ?thesis
    using rd' e example_heap_read by (simp add: c example_ledger_value)
qed

subsection \<open>Balances\<close>



declare radix_string.simps [simp del]




text \<open>
  An integer of magnitude up to \<open>2^53\<close> is a double: rounding, \<open>parseFloat\<close> and a sum
  or difference that stays in this range are exact.
\<close>

declare normalise.simps [simp del]











lemma floor_numeral_quotient:
  "\<lfloor>(numeral a :: rat) / numeral b\<rfloor> = numeral a div numeral b"
  using floor_divide_of_int_eq [of "numeral a" "numeral b", where ?'a = rat] by simp

lemmas double_eval = round_double_def round_positive_def round_half_even_def normalise.simps
  floor_numeral_quotient Let_def





text \<open>
  With amounts that are not integral the steps round as well: receiving 0.1, sending
  0.3 and receiving 0.2 leaves a balance of \<open>2^-55\<close>, about 2.78e-17.
\<close>

lemma fractional_balance:
  "getBalanceOfAddress ''charityB'' fraction_ledger = Finite (1 / 36028797018963968)"
proof -
  have 1: "add (Finite 0) (Finite (3602879701896397 / 36028797018963968))
      = Finite (3602879701896397 / 36028797018963968)"
    by (simp add: double_eval)
  have 2: "subtract (Finite (3602879701896397 / 36028797018963968))
      (Finite (5404319552844595 / 18014398509481984))
      = Finite (- (7205759403792793 / 36028797018963968))"
    by (simp add: subtract_def double_eval)
  have 3: "add (Finite (- (7205759403792793 / 36028797018963968)))
      (Finite (3602879701896397 / 18014398509481984)) = Finite (1 / 36028797018963968)"
    by (simp add: double_eval)
  have p: "parseFloat (Finite (3602879701896397 / 36028797018963968))
        = Finite (3602879701896397 / 36028797018963968)"
      "parseFloat (Finite (5404319552844595 / 18014398509481984))
        = Finite (5404319552844595 / 18014398509481984)"
      "parseFloat (Finite (3602879701896397 / 18014398509481984))
        = Finite (3602879701896397 / 18014398509481984)"
    by (simp_all add: parseFloat_def floor_numeral_quotient)
  show ?thesis
    by (simp add: getBalanceOfAddress_def fraction_ledger_def fraction_transaction_def Let_def
        p 1 2 3 del: add.simps)
qed

end
